theory Spec2Isabelle
  imports Complex_Main "HOL-Library.Log_Nat"
begin

section \<open>Route Scouter: a shallow embedding of \<^verbatim>\<open>utils.py\<close> and of the filter loop of \<^verbatim>\<open>app.py\<close>\<close>

text \<open>
  Conventions of the embedding.
  \<^item> A raised exception is the \<open>Inl\<close> branch of a sum; \<open>err_bind\<close> sequences two steps
    the way one statement follows another in Python.
  \<^item> The values that flow through the decoded response and through the result
    dictionaries are dynamically typed; they are the datatype \<open>pyval\<close>. A dictionary is an
    association list read with \<open>map_of\<close> (keys are taken to be distinct, as in a
    Python dict).
  \<^item> A Python float in the geometry and in the response is the real number it denotes,
    an infinity or NaN (\<open>pyfloat\<close>). Comparison and truth value are exact on it. The
    operators that round and the functions of the C library (\<open>sin\<close>, \<open>cos\<close>, \<open>sqrt\<close>,
    \<open>atan2\<close>, \<open>radians\<close>) are not computed here: they are the fields of a record
    \<open>float_arith\<close>, a parameter of every function that calls them, so that a statement
    about such a function holds for whatever these operations return. The exceptions
    that \<open>math.sin\<close>, \<open>math.cos\<close> and \<open>math.sqrt\<close> raise are branches of the model.
    \<open>real_arith\<close> is the instance without rounding.
  \<^item> The index arithmetic of the downsampler uses only IEEE operations that are
    correctly rounded (division of two integers, a product, truncation). These are
    embedded exactly: a float is the rational number it denotes and every operation
    rounds to 53 significant bits, ties to even.
  \<^item> Library functions that are not part of the repository and only render values
    (\<open>str\<close> of a non-string value, the \<open>.1f\<close> format) or decode bytes
    (\<open>gpxpy.parse\<close>) are parameters of the functions that call them.
\<close>

subsection \<open>Exceptions and dynamically typed values\<close>

datatype py_error =
    ZeroDivisionError
  | IndexError
  | ValueError
  | TypeError
  | AttributeError
  | HTTPError

definition err_bind :: "'e + 'a \<Rightarrow> ('a \<Rightarrow> 'e + 'b) \<Rightarrow> 'e + 'b" where
  "err_bind m f = (case m of Inl e \<Rightarrow> Inl e | Inr x \<Rightarrow> f x)"

text \<open>A float: a finite number, an infinity, or NaN. \<open>flt\<close> is \<open><\<close>, which is false as soon
  as one side is NaN; \<open>fneg\<close> is the unary minus.\<close>

datatype pyfloat = Finite real | PosInf | NegInf | NaN

fun flt :: "pyfloat \<Rightarrow> pyfloat \<Rightarrow> bool" where
  "flt NaN y = False"
| "flt x NaN = False"
| "flt PosInf y = False"
| "flt x NegInf = False"
| "flt NegInf y = True"
| "flt x PosInf = True"
| "flt (Finite x) (Finite y) = (x < y)"


fun is_inf :: "pyfloat \<Rightarrow> bool" where
  "is_inf PosInf = True"
| "is_inf NegInf = True"
| "is_inf x = False"

text \<open>The truth value of a float: only zero is false.\<close>

fun nonzero :: "pyfloat \<Rightarrow> bool" where
  "nonzero (Finite x) = (x \<noteq> 0)"
| "nonzero x = True"

text \<open>The rounding operators \<open>+\<close>, \<open>-\<close>, \<open>*\<close>, \<open>/\<close>, \<open>** 2\<close> on floats and the values of the
  functions of the \<open>math\<close> module, where these return.\<close>

record float_arith =
  f_add :: "pyfloat \<Rightarrow> pyfloat \<Rightarrow> pyfloat"
  f_sub :: "pyfloat \<Rightarrow> pyfloat \<Rightarrow> pyfloat"
  f_mul :: "pyfloat \<Rightarrow> pyfloat \<Rightarrow> pyfloat"
  f_div :: "pyfloat \<Rightarrow> pyfloat \<Rightarrow> pyfloat"
  f_square :: "pyfloat \<Rightarrow> pyfloat"
  f_radians :: "pyfloat \<Rightarrow> pyfloat"
  f_sin :: "pyfloat \<Rightarrow> pyfloat"
  f_cos :: "pyfloat \<Rightarrow> pyfloat"
  f_sqrt :: "pyfloat \<Rightarrow> pyfloat"
  f_atan2 :: "pyfloat \<Rightarrow> pyfloat \<Rightarrow> pyfloat"

datatype pyval =
    PNone
  | PBool bool
  | PNum pyfloat
  | PStr string
  | PList "pyval list"
  | PDict "(string \<times> pyval) list"

text \<open>Python truth value testing, as used by \<open>if x\<close>, \<open>x and y\<close>, \<open>not x\<close>.\<close>

fun truthy :: "pyval \<Rightarrow> bool" where
  "truthy PNone = False"
| "truthy (PBool b) = b"
| "truthy (PNum x) = nonzero x"
| "truthy (PStr s) = (s \<noteq> [])"
| "truthy (PList xs) = (xs \<noteq> [])"
| "truthy (PDict kvs) = (kvs \<noteq> [])"

text \<open>\<open>d.get(key, default)\<close>; only a dict has the method.\<close>

fun py_get :: "pyval \<Rightarrow> string \<Rightarrow> pyval \<Rightarrow> py_error + pyval" where
  "py_get (PDict kvs) k d = Inr (case map_of kvs k of Some v \<Rightarrow> v | None \<Rightarrow> d)"
| "py_get _ k d = Inl AttributeError"

text \<open>Iterating a value in a \<open>for\<close> loop: a dict yields its keys, a string its characters.\<close>

fun py_iter :: "pyval \<Rightarrow> py_error + pyval list" where
  "py_iter (PList xs) = Inr xs"
| "py_iter (PDict kvs) = Inr (map (\<lambda>kv. PStr (fst kv)) kvs)"
| "py_iter (PStr s) = Inr (map (\<lambda>c. PStr [c]) s)"
| "py_iter _ = Inl TypeError"

text \<open>The numeric reading of a value where Python expects a number (\<open>bool\<close> is a number).\<close>

fun as_number :: "pyval \<Rightarrow> pyfloat option" where
  "as_number (PNum x) = Some x"
| "as_number (PBool b) = Some (Finite (if b then 1 else 0))"
| "as_number _ = None"

fun hashable :: "pyval \<Rightarrow> bool" where
  "hashable (PList xs) = False"
| "hashable (PDict kvs) = False"
| "hashable _ = True"

text \<open>An f-string field \<open>{v}\<close>: a string is inserted as it is, any other value through
  \<open>str\<close>, which is the parameter \<open>str_of\<close>.\<close>

definition fstr :: "(pyval \<Rightarrow> string) \<Rightarrow> pyval \<Rightarrow> string" where
  "fstr str_of v = (case v of PStr s \<Rightarrow> s | _ \<Rightarrow> str_of v)"

subsection \<open>Geometry utilities\<close>

text \<open>\<open>math.sin\<close> and \<open>math.cos\<close> raise \<open>ValueError\<close> on an infinite argument, \<open>math.sqrt\<close>
  on a negative one; on NaN all three return.\<close>

definition py_sin :: "float_arith \<Rightarrow> pyfloat \<Rightarrow> py_error + pyfloat" where
  "py_sin ar x = (if is_inf x then Inl ValueError else Inr (f_sin ar x))"

definition py_cos :: "float_arith \<Rightarrow> pyfloat \<Rightarrow> py_error + pyfloat" where
  "py_cos ar x = (if is_inf x then Inl ValueError else Inr (f_cos ar x))"

definition py_sqrt :: "float_arith \<Rightarrow> pyfloat \<Rightarrow> py_error + pyfloat" where
  "py_sqrt ar x = (if flt x (Finite 0) then Inl ValueError else Inr (f_sqrt ar x))"

text \<open>The calls that can raise are made in the order in which Python evaluates the
  expression for \<open>a\<close>: the first sine, the two cosines, the second sine.\<close>

definition haversine_distance ::
  "float_arith \<Rightarrow> pyfloat \<Rightarrow> pyfloat \<Rightarrow> pyfloat \<Rightarrow> pyfloat \<Rightarrow> py_error + pyfloat" where
  "haversine_distance ar lat1 lon1 lat2 lon2 =
     (let R = Finite 6371000;
          phi1 = f_radians ar lat1;
          phi2 = f_radians ar lat2;
          delta_phi = f_radians ar (f_sub ar lat2 lat1);
          delta_lambda = f_radians ar (f_sub ar lon2 lon1)
      in err_bind (py_sin ar (f_div ar delta_phi (Finite 2))) (\<lambda>s1.
         err_bind (py_cos ar phi1) (\<lambda>c1.
         err_bind (py_cos ar phi2) (\<lambda>c2.
         err_bind (py_sin ar (f_div ar delta_lambda (Finite 2))) (\<lambda>s2.
         let a = f_add ar (f_square ar s1) (f_mul ar (f_mul ar c1 c2) (f_square ar s2))
         in err_bind (py_sqrt ar a) (\<lambda>sa.
            err_bind (py_sqrt ar (f_sub ar (Finite 1) a)) (\<lambda>sb.
            Inr (f_mul ar R (f_mul ar (Finite 2) (f_atan2 ar sa sb))))))))))"

text \<open>The slice \<open>xs[::step]\<close> for a positive step: the items at indices 0, step, 2 step, ...\<close>

fun slice_step :: "'a list \<Rightarrow> nat \<Rightarrow> 'a list" where
  "slice_step [] k = []"
| "slice_step (x # xs) k = x # slice_step (drop (k - 1) xs) k"

text \<open>The loop of \<open>distance_from_route\<close> over the sampled points, \<open>min_dist\<close> as
  accumulator; it starts at \<open>float('inf')\<close>.\<close>

fun min_loop ::
  "float_arith \<Rightarrow> pyfloat \<Rightarrow> pyfloat \<Rightarrow> (pyfloat \<times> pyfloat) list \<Rightarrow> pyfloat
     \<Rightarrow> py_error + pyfloat" where
  "min_loop ar place_lat place_lon [] min_dist = Inr min_dist"
| "min_loop ar place_lat place_lon (p # ps) min_dist =
     err_bind (haversine_distance ar place_lat place_lon (fst p) (snd p)) (\<lambda>dist.
       min_loop ar place_lat place_lon ps (if flt dist min_dist then dist else min_dist))"

definition distance_from_route ::
  "float_arith \<Rightarrow> pyfloat \<Rightarrow> pyfloat \<Rightarrow> (pyfloat \<times> pyfloat) list \<Rightarrow> py_error + pyfloat" where
  "distance_from_route ar place_lat place_lon route_points =
     (let step = max 1 (length route_points div 100);
          sampled_points = slice_step route_points step
      in min_loop ar place_lat place_lon sampled_points PosInf)"

subsection \<open>Search client: turning one place of the response into a result\<close>

definition price_map :: "(string \<times> string) list" where
  "price_map =
     [(''PRICE_LEVEL_FREE'', ''Free''),
      (''PRICE_LEVEL_INEXPENSIVE'', ''$''),
      (''PRICE_LEVEL_MODERATE'', ''$$''),
      (''PRICE_LEVEL_EXPENSIVE'', ''$$$''),
      (''PRICE_LEVEL_VERY_EXPENSIVE'', ''$$$$'')]"

text \<open>\<open>price_map.get(price_raw, "")\<close>: the key is hashed first, so a list or a dict
  raises; a key that is not a string equals no key of the table.\<close>

definition price_lookup :: "pyval \<Rightarrow> py_error + string" where
  "price_lookup price_raw =
     (if \<not> hashable price_raw then Inl TypeError
      else case price_raw of
             PStr s \<Rightarrow> (case map_of price_map s of Some v \<Rightarrow> Inr v | None \<Rightarrow> Inr [])
           | _ \<Rightarrow> Inr [])"

text \<open>\<open>distance_from_route(lat, lon, route_points)\<close> called on the values read from the
  response: arithmetic on a value that is not a number raises \<open>TypeError\<close>; a number
  goes through \<open>haversine_distance\<close> as it is, infinite or NaN included.\<close>

definition place_distance ::
  "float_arith \<Rightarrow> pyval \<Rightarrow> pyval \<Rightarrow> (pyfloat \<times> pyfloat) list \<Rightarrow> py_error + pyval" where
  "place_distance ar lat lon route_points =
     (case (as_number lat, as_number lon) of
        (Some la, Some lo) \<Rightarrow>
          err_bind (distance_from_route ar la lo route_points) (\<lambda>d. Inr (PNum d))
      | _ \<Rightarrow> Inl TypeError)"

text \<open>\<open>dist_from_route / 1609.34\<close>. The \<open>.1f\<close> rendering of the quotient is the
  parameter \<open>fmt_1f\<close>.\<close>

definition miles :: "float_arith \<Rightarrow> pyval \<Rightarrow> py_error + pyval" where
  "miles ar v =
     (case as_number v of
        Some d \<Rightarrow> Inr (PNum (f_div ar d (Finite 1609.34)))
      | None \<Rightarrow> Inl TypeError)"

text \<open>\<open>", ".join(place.get("types", [])[:3])\<close>: a list of strings is joined, a string
  is joined character by character, anything else raises (for a dict, \<open>KeyError\<close>
  instead of \<open>TypeError\<close> from Python 3.12 on; the difference is not modelled).\<close>

fun join_comma :: "string list \<Rightarrow> string" where
  "join_comma [] = []"
| "join_comma [s] = s"
| "join_comma (s # t # ss) = s @ '', '' @ join_comma (t # ss)"

fun str_items :: "pyval list \<Rightarrow> string list option" where
  "str_items [] = Some []"
| "str_items (PStr s # vs) = (case str_items vs of Some ss \<Rightarrow> Some (s # ss) | None \<Rightarrow> None)"
| "str_items (v # vs) = None"

fun join_types :: "pyval \<Rightarrow> py_error + string" where
  "join_types (PList vs) =
     (case str_items (take 3 vs) of Some ss \<Rightarrow> Inr (join_comma ss) | None \<Rightarrow> Inl TypeError)"
| "join_types (PStr s) = Inr (join_comma (map (\<lambda>c. [c]) (take 3 s)))"
| "join_types v = Inl TypeError"

text \<open>The body of the loop \<open>for place in places\<close> of \<open>search_along_route\<close>: the dict that is
  appended to \<open>results\<close>. \<open>route_points\<close> is \<open>None\<close> or a list.\<close>

definition place_result ::
  "float_arith \<Rightarrow> (pyval \<Rightarrow> string) \<Rightarrow> (pyval \<Rightarrow> string)
     \<Rightarrow> (pyfloat \<times> pyfloat) list option \<Rightarrow> pyval \<Rightarrow> py_error + pyval" where
  "place_result ar str_of fmt_1f route_points place =
     err_bind (py_get place ''location'' (PDict [])) (\<lambda>location.
     err_bind (py_get location ''latitude'' PNone) (\<lambda>lat.
     err_bind (py_get location ''longitude'' PNone) (\<lambda>lon.
     err_bind
       (case route_points of
          None \<Rightarrow> Inr PNone
        | Some rp \<Rightarrow>
            if rp \<noteq> [] \<and> truthy lat \<and> truthy lon then place_distance ar lat lon rp
            else Inr PNone) (\<lambda>dist_from_route.
     err_bind (py_get place ''priceLevel'' (PStr [])) (\<lambda>price_raw.
     err_bind (price_lookup price_raw) (\<lambda>price_display.
     err_bind (py_get place ''currentOpeningHours'' (PDict [])) (\<lambda>opening_hours.
     err_bind (py_get opening_hours ''openNow'' PNone) (\<lambda>open_now.
     err_bind (py_get place ''id'' (PStr [])) (\<lambda>place_id.
     let maps_url =
           (if truthy place_id
              then ''https://www.google.com/maps/place/?q=place_id:'' @ fstr str_of place_id
            else if truthy lat \<and> truthy lon
              then ''https://www.google.com/maps/search/?api=1&query=''
                   @ fstr str_of lat @ '','' @ fstr str_of lon
            else [])
     in
     err_bind (py_get place ''displayName'' (PDict [])) (\<lambda>display_name.
     err_bind (py_get display_name ''text'' (PStr ''Unknown'')) (\<lambda>name.
     err_bind (py_get place ''formattedAddress'' (PStr [])) (\<lambda>address.
     err_bind (py_get place ''rating'' PNone) (\<lambda>rating.
     err_bind (py_get place ''userRatingCount'' PNone) (\<lambda>rating_count.
     err_bind (py_get place ''types'' (PList [])) (\<lambda>types_raw.
     err_bind (join_types types_raw) (\<lambda>types.
     err_bind (if truthy dist_from_route then miles ar dist_from_route else Inr PNone)
       (\<lambda>distance_mi.
     Inr (PDict
       [(''name'', name),
        (''address'', address),
        (''rating'', rating),
        (''rating_count'', rating_count),
        (''lat'', lat),
        (''lon'', lon),
        (''types'', PStr types),
        (''price_level'', PStr price_display),
        (''price_raw'', price_raw),
        (''open_now'', open_now),
        (''distance_m'', dist_from_route),
        (''distance_mi'', distance_mi),
        (''distance_display'',
           PStr (if truthy dist_from_route then fmt_1f distance_mi @ '' mi'' else [])),
        (''maps_url'', PStr maps_url)]))))))))))))))))))"

text \<open>The loop itself: the first exception ends the call.\<close>

fun place_results ::
  "float_arith \<Rightarrow> (pyval \<Rightarrow> string) \<Rightarrow> (pyval \<Rightarrow> string)
     \<Rightarrow> (pyfloat \<times> pyfloat) list option \<Rightarrow> pyval list \<Rightarrow> py_error + pyval list" where
  "place_results ar str_of fmt_1f route_points [] = Inr []"
| "place_results ar str_of fmt_1f route_points (place # places) =
     err_bind (place_result ar str_of fmt_1f route_points place) (\<lambda>r.
     err_bind (place_results ar str_of fmt_1f route_points places) (\<lambda>rs.
     Inr (r # rs)))"

text \<open>\<open>search_along_route\<close> after the request has been sent: \<open>status\<close> is the HTTP status
  of the response and \<open>data\<close> its decoded body. \<open>raise_for_status\<close> raises for a status
  from 400 to 599.\<close>

definition search_along_route ::
  "float_arith \<Rightarrow> (pyval \<Rightarrow> string) \<Rightarrow> (pyval \<Rightarrow> string) \<Rightarrow> nat \<Rightarrow> pyval
     \<Rightarrow> (pyfloat \<times> pyfloat) list option \<Rightarrow> py_error + pyval list" where
  "search_along_route ar str_of fmt_1f status data route_points =
     (if 400 \<le> status \<and> status < 600 then Inl HTTPError
      else
        err_bind (py_get data ''places'' (PList [])) (\<lambda>places.
        err_bind (py_iter places) (\<lambda>ps.
        place_results ar str_of fmt_1f route_points ps)))"

text \<open>The entry \<open>r[key]\<close> of a result, when it exists.\<close>

definition field :: "pyval \<Rightarrow> string \<Rightarrow> pyval option" where
  "field r key = (case r of PDict kvs \<Rightarrow> map_of kvs key | _ \<Rightarrow> None)"

subsection \<open>The filter loop of the application\<close>

text \<open>\<open>place["rating"] < min_rating\<close> and \<open>place["distance_mi"] > max_distance_mi\<close>:
  a comparison of a float with a value that is not a number raises.\<close>

definition py_less :: "pyval \<Rightarrow> real \<Rightarrow> py_error + bool" where
  "py_less v x =
     (case as_number v of Some y \<Rightarrow> Inr (flt y (Finite x)) | None \<Rightarrow> Inl TypeError)"

definition py_greater :: "pyval \<Rightarrow> real \<Rightarrow> py_error + bool" where
  "py_greater v x =
     (case as_number v of Some y \<Rightarrow> Inr (flt (Finite x) y) | None \<Rightarrow> Inl TypeError)"

text \<open>Each of the four tests answers whether the place is skipped (\<open>continue\<close>).\<close>

definition skip_rating :: "real \<Rightarrow> pyval \<Rightarrow> py_error + bool" where
  "skip_rating min_rating place =
     err_bind (py_get place ''rating'' PNone) (\<lambda>rating.
     err_bind (if truthy rating then py_less rating min_rating else Inr False) (\<lambda>low.
     if low then Inr True
     else Inr (0 < min_rating \<and> \<not> truthy rating)))"

definition skip_price :: "string list \<Rightarrow> pyval \<Rightarrow> py_error + bool" where
  "skip_price price_filter place =
     err_bind (py_get place ''price_level'' PNone) (\<lambda>price_level.
     if price_filter \<noteq> [] \<and> price_level \<notin> set (map PStr price_filter)
       then Inr (truthy price_level)
     else Inr False)"

definition skip_open :: "bool \<Rightarrow> pyval \<Rightarrow> py_error + bool" where
  "skip_open open_now_only place =
     (if open_now_only
        then err_bind (py_get place ''open_now'' PNone) (\<lambda>open_now. Inr (open_now \<noteq> PBool True))
      else Inr False)"

definition skip_distance :: "real \<Rightarrow> pyval \<Rightarrow> py_error + bool" where
  "skip_distance max_distance_mi place =
     err_bind (py_get place ''distance_mi'' PNone) (\<lambda>distance_mi.
     if truthy distance_mi then py_greater distance_mi max_distance_mi else Inr False)"

text \<open>One pass of the loop body: \<open>True\<close> when the place reaches \<open>append\<close>. A later test is
  only evaluated when the earlier ones did not skip.\<close>

definition keeps :: "real \<Rightarrow> string list \<Rightarrow> bool \<Rightarrow> real \<Rightarrow> pyval \<Rightarrow> py_error + bool" where
  "keeps min_rating price_filter open_now_only max_distance_mi place =
     err_bind (skip_rating min_rating place) (\<lambda>s1.
     if s1 then Inr False else
     err_bind (skip_price price_filter place) (\<lambda>s2.
     if s2 then Inr False else
     err_bind (skip_open open_now_only place) (\<lambda>s3.
     if s3 then Inr False else
     err_bind (skip_distance max_distance_mi place) (\<lambda>s4.
     Inr (\<not> s4)))))"

fun filter_results ::
  "real \<Rightarrow> string list \<Rightarrow> bool \<Rightarrow> real \<Rightarrow> pyval list \<Rightarrow> py_error + pyval list" where
  "filter_results min_rating price_filter open_now_only max_distance_mi [] = Inr []"
| "filter_results min_rating price_filter open_now_only max_distance_mi (place # results) =
     err_bind (keeps min_rating price_filter open_now_only max_distance_mi place) (\<lambda>k.
     err_bind (filter_results min_rating price_filter open_now_only max_distance_mi results)
       (\<lambda>rest. Inr (if k then place # rest else rest)))"

subsection \<open>Route parser, track format\<close>

text \<open>What \<open>gpxpy.parse\<close> returns, reduced to the attributes that \<open>parse_gpx\<close> reads:
  a track is the list of its segments, a segment and a route are the lists of their
  points.\<close>

record gpx_point =
  latitude :: real
  longitude :: real

record gpx =
  tracks :: "gpx_point list list list"
  routes :: "gpx_point list list"
  waypoints :: "gpx_point list"

text \<open>The innermost loop: \<open>for point in ...: points.append((point.latitude, point.longitude))\<close>.\<close>

fun add_points :: "gpx_point list \<Rightarrow> (real \<times> real) list \<Rightarrow> (real \<times> real) list" where
  "add_points [] points = points"
| "add_points (point # rest) points =
     add_points rest (points @ [(latitude point, longitude point)])"

fun add_segments :: "gpx_point list list \<Rightarrow> (real \<times> real) list \<Rightarrow> (real \<times> real) list" where
  "add_segments [] points = points"
| "add_segments (segment # rest) points = add_segments rest (add_points segment points)"

fun add_tracks :: "gpx_point list list list \<Rightarrow> (real \<times> real) list \<Rightarrow> (real \<times> real) list" where
  "add_tracks [] points = points"
| "add_tracks (track # rest) points = add_tracks rest (add_segments track points)"

fun add_routes :: "gpx_point list list \<Rightarrow> (real \<times> real) list \<Rightarrow> (real \<times> real) list" where
  "add_routes [] points = points"
| "add_routes (route # rest) points = add_routes rest (add_points route points)"

definition parse_gpx ::
  "('bytes \<Rightarrow> py_error + gpx) \<Rightarrow> 'bytes \<Rightarrow> py_error + (real \<times> real) list" where
  "parse_gpx gpxpy_parse file_content =
     err_bind (gpxpy_parse file_content) (\<lambda>g.
     let points = add_tracks (tracks g) [];
         points = (if points = [] then add_routes (routes g) points else points);
         points = (if points = [] then add_points (waypoints g) points else points)
     in Inr points)"

subsection \<open>Route compressor\<close>

text \<open>Python floats in the index arithmetic. A float is the rational it denotes;
  \<open>fl\<close> rounds a rational to the nearest number with 53 significant bits, ties to the
  even significand, as IEEE 754 binary64 does for every basic operation. The exponent
  range is not bounded: overflow and subnormal numbers are not modelled. The values that
  the downsampler computes are 0 or lie between 1 and \<open>2 ^ 53\<close> for the route lengths
  considered below.\<close>

definition round_even :: "rat \<Rightarrow> int" where
  "round_even y =
     (let f = \<lfloor>y\<rfloor>; r = y - of_int f
      in if r < 1 / 2 then f
         else if 1 / 2 < r then f + 1
         else if even f then f else f + 1)"

text \<open>The exponent \<open>e\<close> of a positive rational: \<open>2 ^ e \<le> x < 2 ^ (e + 1)\<close>.\<close>

definition ilog2 :: "rat \<Rightarrow> int" where
  "ilog2 x = (if 1 \<le> x then bitlen \<lfloor>x\<rfloor> - 1 else - bitlen (\<lceil>1 / x\<rceil> - 1))"

definition scale2 :: "rat \<Rightarrow> int \<Rightarrow> rat" where
  "scale2 x k = (if 0 \<le> k then x * 2 ^ nat k else x / 2 ^ nat (- k))"

definition fl :: "rat \<Rightarrow> rat" where
  "fl x =
     (if x = 0 then 0
      else let k = ilog2 \<bar>x\<bar> - 52
           in sgn x * scale2 (of_int (round_even (scale2 \<bar>x\<bar> (- k)))) k)"

text \<open>\<open>a / b\<close> on two ints (correctly rounded in CPython), \<open>i * step\<close> with the int
  converted first, and \<open>int(x)\<close>, which truncates towards zero.\<close>

definition py_truediv :: "int \<Rightarrow> int \<Rightarrow> py_error + rat" where
  "py_truediv a b = (if b = 0 then Inl ZeroDivisionError else Inr (fl (of_int a / of_int b)))"

definition int_times_float :: "int \<Rightarrow> rat \<Rightarrow> rat" where
  "int_times_float i x = fl (fl (of_int i) * x)"

definition py_int :: "rat \<Rightarrow> int" where
  "py_int x = (if 0 \<le> x then \<lfloor>x\<rfloor> else \<lceil>x\<rceil>)"

text \<open>\<open>points[i]\<close>: a negative index counts from the end, an index outside the list
  raises.\<close>

definition py_index :: "'a list \<Rightarrow> int \<Rightarrow> py_error + 'a" where
  "py_index xs i =
     (let j = (if i < 0 then i + int (length xs) else i)
      in if j < 0 \<or> int (length xs) \<le> j then Inl IndexError else Inr (xs ! nat j))"

text \<open>The comprehension \<open>[points[i] for i in indices]\<close>.\<close>

fun index_all :: "'a list \<Rightarrow> int list \<Rightarrow> py_error + 'a list" where
  "index_all points [] = Inr []"
| "index_all points (i # indices) =
     err_bind (py_index points i) (\<lambda>x.
     err_bind (index_all points indices) (\<lambda>xs. Inr (x # xs)))"

definition downsample_points :: "'a list \<Rightarrow> int \<Rightarrow> py_error + 'a list" where
  "downsample_points points max_points =
     (if int (length points) \<le> max_points then Inr points
      else
        err_bind (py_truediv (int (length points) - 1) (max_points - 1)) (\<lambda>step.
        let indices = map (\<lambda>i. py_int (int_times_float i step)) [0..max_points - 2]
                      @ [int (length points) - 1]
        in index_all points indices))"

text \<open>\<open>encode_polyline\<close>: the compressor. \<open>polyline_encode\<close> is the library's encoder.\<close>

definition encode_polyline :: "('a list \<Rightarrow> string) \<Rightarrow> 'a list \<Rightarrow> py_error + string" where
  "encode_polyline polyline_encode points =
     err_bind (downsample_points points 500) (\<lambda>ps. Inr (polyline_encode ps))"

subsection \<open>Arithmetic without rounding, and reference formulas\<close>

definition radians :: "real \<Rightarrow> real" where
  "radians x = x * (pi / 180)"

text \<open>The angle of the point \<open>(x, y)\<close>, between \<open>-pi\<close> and \<open>pi\<close>, with the value 0 at the
  origin.\<close>

definition atan2 :: "real \<Rightarrow> real \<Rightarrow> real" where
  "atan2 y x =
     (if 0 < x then arctan (y / x)
      else if x < 0 then (if 0 \<le> y then arctan (y / x) + pi else arctan (y / x) - pi)
      else if 0 < y then pi / 2
      else if y < 0 then - (pi / 2)
      else 0)"

text \<open>\<open>real_arith\<close> computes on finite numbers without rounding; an operation with an
  argument that is not finite yields NaN. It is one arithmetic among those that
  \<open>float_arith\<close> ranges over, not the one of the machine.\<close>

fun lift1 :: "(real \<Rightarrow> real) \<Rightarrow> pyfloat \<Rightarrow> pyfloat" where
  "lift1 f (Finite x) = Finite (f x)"
| "lift1 f x = NaN"

fun lift2 :: "(real \<Rightarrow> real \<Rightarrow> real) \<Rightarrow> pyfloat \<Rightarrow> pyfloat \<Rightarrow> pyfloat" where
  "lift2 f (Finite x) (Finite y) = Finite (f x y)"
| "lift2 f x y = NaN"

definition real_arith :: float_arith where
  "real_arith =
     \<lparr>f_add = lift2 (\<lambda>x y. x + y),
      f_sub = lift2 (\<lambda>x y. x - y),
      f_mul = lift2 (\<lambda>x y. x * y),
      f_div = lift2 (\<lambda>x y. x / y),
      f_square = lift1 (\<lambda>x. x\<^sup>2),
      f_radians = lift1 radians,
      f_sin = lift1 sin,
      f_cos = lift1 cos,
      f_sqrt = lift1 sqrt,
      f_atan2 = lift2 atan2\<rparr>"


definition exact_at_zero :: "float_arith \<Rightarrow> bool" where
  "exact_at_zero ar \<longleftrightarrow>
     (\<forall>x. f_sub ar (Finite x) (Finite x) = Finite 0)
     \<and> f_sub ar (Finite 1) (Finite 0) = Finite 1
     \<and> f_add ar (Finite 0) (Finite 0) = Finite 0
     \<and> (\<forall>x. f_mul ar (Finite x) (Finite 0) = Finite 0)
     \<and> f_div ar (Finite 0) (Finite 2) = Finite 0
     \<and> f_square ar (Finite 0) = Finite 0
     \<and> f_radians ar (Finite 0) = Finite 0
     \<and> (\<forall>x. \<exists>y. f_radians ar (Finite x) = Finite y)
     \<and> f_sin ar (Finite 0) = Finite 0
     \<and> (\<forall>x y. \<exists>z. f_mul ar (f_cos ar (Finite x)) (f_cos ar (Finite y)) = Finite z)
     \<and> f_sqrt ar (Finite 0) = Finite 0
     \<and> f_sqrt ar (Finite 1) = Finite 1
     \<and> f_atan2 ar (Finite 0) (Finite 1) = Finite 0"

text \<open>The argument of the two square roots in \<open>haversine_distance\<close>, without rounding.\<close>

definition hav_a :: "real \<Rightarrow> real \<Rightarrow> real \<Rightarrow> real \<Rightarrow> real" where
  "hav_a lat1 lon1 lat2 lon2 =
     (sin (radians (lat2 - lat1) / 2))\<^sup>2
       + cos (radians lat1) * cos (radians lat2) * (sin (radians (lon2 - lon1) / 2))\<^sup>2"

text \<open>The haversine formula as it is usually written: the haversine of an angle, and
  the distance \<open>2 R arcsin (sqrt h)\<close> on a sphere of radius \<open>R\<close>.\<close>

definition hav :: "real \<Rightarrow> real" where
  "hav \<theta> = (sin (\<theta> / 2))\<^sup>2"

definition haversine_formula :: "real \<Rightarrow> real \<Rightarrow> real \<Rightarrow> real \<Rightarrow> real \<Rightarrow> real" where
  "haversine_formula R lat1 lon1 lat2 lon2 =
     2 * R * arcsin (sqrt (hav (radians lat2 - radians lat1)
                            + cos (radians lat1) * cos (radians lat2) * hav (radians lon2 - radians lon1)))"

text \<open>The coordinates of a list of points of a track file, in order.\<close>

definition coords :: "gpx_point list \<Rightarrow> (real \<times> real) list" where
  "coords ps = map (\<lambda>p. (latitude p, longitude p)) ps"

text \<open>The distance from a place to one point of the route by the haversine formula.\<close>

definition great_circle :: "real \<Rightarrow> real \<Rightarrow> real \<times> real \<Rightarrow> real" where
  "great_circle place_lat place_lon p = haversine_formula 6371000 place_lat place_lon (fst p) (snd p)"


text \<open>The item at position \<open>j\<close> of the list a call returned, if it returned one that
  long.\<close>

definition nth_selected :: "nat \<Rightarrow> py_error + 'a list \<Rightarrow> 'a option" where
  "nth_selected j r =
     (case r of Inl e \<Rightarrow> None | Inr out \<Rightarrow> if j < length out then Some (out ! j) else None)"

section \<open>Properties\<close>

subsection \<open>Great-circle distance\<close>

lemma cos_diff_times_cos_add: "cos (m - d) * cos (m + d) = (cos m)\<^sup>2 - (sin d)\<^sup>2" for m d :: real
proof -
  have "cos (m - d) * cos (m + d) = (cos m)\<^sup>2 * (cos d)\<^sup>2 - (sin m)\<^sup>2 * (sin d)\<^sup>2"
    by (simp add: cos_add cos_diff power2_eq_square algebra_simps)
  also have "\<dots> = (cos m)\<^sup>2 * (1 - (sin d)\<^sup>2) - (1 - (cos m)\<^sup>2) * (sin d)\<^sup>2"
    by (simp add: cos_squared_eq [of d] sin_squared_eq [of m])
  also have "\<dots> = (cos m)\<^sup>2 - (sin d)\<^sup>2" by (simp add: algebra_simps)
  finally show ?thesis .
qed

lemma cos_mult_cos: "cos x * cos y = (cos ((x + y) / 2))\<^sup>2 - (sin ((y - x) / 2))\<^sup>2" for x y :: real
proof -
  have "(x + y) / 2 - (y - x) / 2 = x" "(x + y) / 2 + (y - x) / 2 = y"
    by (simp_all add: field_simps)
  then show ?thesis
    using cos_diff_times_cos_add [of "(x + y) / 2" "(y - x) / 2"] by simp
qed

lemma radians_diff: "radians (x - y) = radians x - radians y"
  by (simp add: radians_def left_diff_distrib)

lemma hav_a_convex:
  "hav_a lat1 lon1 lat2 lon2 =
     (sin (radians (lat2 - lat1) / 2))\<^sup>2 * (1 - (sin (radians (lon2 - lon1) / 2))\<^sup>2)
     + (cos ((radians lat1 + radians lat2) / 2))\<^sup>2 * (sin (radians (lon2 - lon1) / 2))\<^sup>2"
  unfolding hav_a_def cos_mult_cos radians_diff by (simp add: algebra_simps)

lemma convex_bounds:
  fixes p q s :: real
  assumes "0 \<le> p" "p \<le> 1" "0 \<le> q" "q \<le> 1" "0 \<le> s" "s \<le> 1"
  shows "0 \<le> p * (1 - s) + q * s" and "p * (1 - s) + q * s \<le> 1"
proof -
  show "0 \<le> p * (1 - s) + q * s"
    using assms by (intro add_nonneg_nonneg mult_nonneg_nonneg) simp_all
  have "p * (1 - s) \<le> 1 * (1 - s)" using assms by (intro mult_right_mono) simp_all
  moreover have "q * s \<le> 1 * s" using assms by (intro mult_right_mono) simp_all
  ultimately show "p * (1 - s) + q * s \<le> 1" by simp
qed

lemma hav_a_nonneg: "0 \<le> hav_a lat1 lon1 lat2 lon2"
  unfolding hav_a_convex by (rule convex_bounds) (simp_all add: abs_square_le_1)

lemma hav_a_le_1: "hav_a lat1 lon1 lat2 lon2 \<le> 1"
  unfolding hav_a_convex by (rule convex_bounds) (simp_all add: abs_square_le_1)

lemma haversine_real:
  "haversine_distance real_arith (Finite lat1) (Finite lon1) (Finite lat2) (Finite lon2) =
     Inr (Finite (6371000 * (2 * atan2 (sqrt (hav_a lat1 lon1 lat2 lon2))
                                        (sqrt (1 - hav_a lat1 lon1 lat2 lon2)))))"
  using hav_a_nonneg [of lat1 lon1 lat2 lon2] hav_a_le_1 [of lat1 lon1 lat2 lon2]
  by (simp add: haversine_distance_def Let_def err_bind_def py_sin_def py_cos_def py_sqrt_def
        real_arith_def hav_a_def)

lemma atan2_nonneg: "0 \<le> y \<Longrightarrow> 0 \<le> x \<Longrightarrow> 0 \<le> atan2 y x"
  by (simp add: atan2_def)

lemma atan2_arcsin:
  assumes "0 \<le> a" "a \<le> 1"
  shows "atan2 (sqrt a) (sqrt (1 - a)) = arcsin (sqrt a)"
proof (cases "a = 1")
  case True
  then show ?thesis by (simp add: atan2_def)
next
  case False
  with assms have a: "a < 1" by simp
  have 1: "sqrt a < 1" using a by simp
  have "0 \<le> sqrt a" using assms(1) by simp
  then have 2: "-1 < sqrt a" by linarith
  have "arcsin (sqrt a) = arctan (sqrt a / sqrt (1 - (sqrt a)\<^sup>2))"
    using 2 1 by (rule arcsin_arctan)
  then show ?thesis using assms a by (simp add: atan2_def)
qed

lemma hav_a_sym: "hav_a lat2 lon2 lat1 lon1 = hav_a lat1 lon1 lat2 lon2"
proof -
  have "radians (lat1 - lat2) = - radians (lat2 - lat1)"
       "radians (lon1 - lon2) = - radians (lon2 - lon1)"
    by (simp_all add: radians_diff)
  then show ?thesis by (simp add: hav_a_def mult.commute)
qed


lemma haversine_real_formula:
  "haversine_distance real_arith (Finite lat1) (Finite lon1) (Finite lat2) (Finite lon2) =
     Inr (Finite (haversine_formula 6371000 lat1 lon1 lat2 lon2))"
proof -
  have "hav_a lat1 lon1 lat2 lon2 =
          hav (radians lat2 - radians lat1)
            + cos (radians lat1) * cos (radians lat2) * hav (radians lon2 - radians lon1)"
    by (simp add: hav_a_def hav_def radians_diff)
  then show ?thesis
    using atan2_arcsin [OF hav_a_nonneg hav_a_le_1, of lat1 lon1 lat2 lon2]
    by (simp add: haversine_real haversine_formula_def)
qed


lemma radians_zero: "radians 0 = 0"
  by (simp add: radians_def)

lemma exact_at_zero_real: "exact_at_zero real_arith"
  unfolding exact_at_zero_def real_arith_def by (simp add: radians_zero atan2_def)





lemma haversine_distance_same:
  assumes "exact_at_zero ar"
  shows "haversine_distance ar (Finite lat) (Finite lon) (Finite lat) (Finite lon) = Inr (Finite 0)"
proof -
  from assms obtain phi where phi: "f_radians ar (Finite lat) = Finite phi"
    unfolding exact_at_zero_def by blast
  from assms obtain z where z: "f_mul ar (f_cos ar (Finite phi)) (f_cos ar (Finite phi)) = Finite z"
    unfolding exact_at_zero_def by blast
  from assms have e:
    "f_sub ar (Finite lat) (Finite lat) = Finite 0" "f_sub ar (Finite lon) (Finite lon) = Finite 0"
    "f_sub ar (Finite 1) (Finite 0) = Finite 1" "f_add ar (Finite 0) (Finite 0) = Finite 0"
    "f_mul ar (Finite z) (Finite 0) = Finite 0" "f_mul ar (Finite 2) (Finite 0) = Finite 0"
    "f_mul ar (Finite 6371000) (Finite 0) = Finite 0"
    "f_div ar (Finite 0) (Finite 2) = Finite 0" "f_square ar (Finite 0) = Finite 0"
    "f_radians ar (Finite 0) = Finite 0" "f_sin ar (Finite 0) = Finite 0"
    "f_sqrt ar (Finite 0) = Finite 0" "f_sqrt ar (Finite 1) = Finite 1"
    "f_atan2 ar (Finite 0) (Finite 1) = Finite 0"
    unfolding exact_at_zero_def by simp_all
  show ?thesis
    by (simp add: haversine_distance_def Let_def err_bind_def py_sin_def py_cos_def py_sqrt_def
          phi z e)
qed



subsection \<open>Price tiers\<close>

lemma price_lookup_str:
  "price_lookup (PStr s) =
     Inr (if s = ''PRICE_LEVEL_FREE'' then ''Free''
          else if s = ''PRICE_LEVEL_INEXPENSIVE'' then ''$''
          else if s = ''PRICE_LEVEL_MODERATE'' then ''$$''
          else if s = ''PRICE_LEVEL_EXPENSIVE'' then ''$$$''
          else if s = ''PRICE_LEVEL_VERY_EXPENSIVE'' then ''$$$$''
          else [])"
  by (simp add: price_lookup_def price_map_def)

lemma place_result_price:
  assumes "place_result ar str_of fmt_1f route_points (PDict kvs) = Inr r"
  shows "\<exists>p. price_lookup (case map_of kvs ''priceLevel'' of Some v \<Rightarrow> v | None \<Rightarrow> PStr []) = Inr p
     \<and> py_get r ''price_level'' PNone = Inr (PStr p)"
  using assms
  by (auto simp: place_result_def err_bind_def Let_def split: sum.splits)

text \<open>
  Claim C5. The price-tier mapping is total on strings: each of the five known codes maps
  to its symbol (Free, $, $$, $$$, $$$$) and every other string, the empty string
  included, maps to the empty display value; an absent \<open>priceLevel\<close> maps to the empty
  display value as well, and no case raises. The \<open>price_level\<close> field of a result is the
  value of this mapping.
\<close>

theorem price_mapping_total:
  "price_lookup (PStr s) =
     Inr (if s = ''PRICE_LEVEL_FREE'' then ''Free''
          else if s = ''PRICE_LEVEL_INEXPENSIVE'' then ''$''
          else if s = ''PRICE_LEVEL_MODERATE'' then ''$$''
          else if s = ''PRICE_LEVEL_EXPENSIVE'' then ''$$$''
          else if s = ''PRICE_LEVEL_VERY_EXPENSIVE'' then ''$$$$''
          else [])
   \<and> (map_of kvs ''priceLevel'' = None \<longrightarrow>
        err_bind (py_get (PDict kvs) ''priceLevel'' (PStr [])) price_lookup = Inr [])
   \<and> (\<forall>r. place_result ar str_of fmt_1f route_points (PDict kvs) = Inr r \<longrightarrow>
        err_bind (err_bind (py_get (PDict kvs) ''priceLevel'' (PStr [])) price_lookup)
          (\<lambda>p. Inr (PStr p)) = py_get r ''price_level'' PNone)"
proof (intro conjI allI impI)
  show "price_lookup (PStr s) =
     Inr (if s = ''PRICE_LEVEL_FREE'' then ''Free''
          else if s = ''PRICE_LEVEL_INEXPENSIVE'' then ''$''
          else if s = ''PRICE_LEVEL_MODERATE'' then ''$$''
          else if s = ''PRICE_LEVEL_EXPENSIVE'' then ''$$$''
          else if s = ''PRICE_LEVEL_VERY_EXPENSIVE'' then ''$$$$''
          else [])"
    by (rule price_lookup_str)
next
  assume "map_of kvs ''priceLevel'' = None"
  then show "err_bind (py_get (PDict kvs) ''priceLevel'' (PStr [])) price_lookup = Inr []"
    by (simp add: err_bind_def price_lookup_def price_map_def)
next
  fix r
  assume "place_result ar str_of fmt_1f route_points (PDict kvs) = Inr r"
  from place_result_price [OF this]
  show "err_bind (err_bind (py_get (PDict kvs) ''priceLevel'' (PStr [])) price_lookup)
          (\<lambda>p. Inr (PStr p)) = py_get r ''price_level'' PNone"
    by (auto simp: err_bind_def)
qed

theorem price_mapping_total_witness:
  "price_lookup (PStr ''PRICE_LEVEL_MODERATE'') = Inr ''$$''
   \<and> price_lookup (PStr ''PRICE_LEVEL_UNSPECIFIED'') = Inr []
   \<and> map_of [(''id'', PStr ''abc'')] ''priceLevel'' = None
   \<and> err_bind (py_get (PDict [(''id'', PStr ''abc'')]) ''priceLevel'' (PStr [])) price_lookup = Inr []
   \<and> (\<exists>r. place_result real_arith (\<lambda>v. []) (\<lambda>v. []) None (PDict [(''id'', PStr ''abc'')]) = Inr r
          \<and> py_get r ''price_level'' PNone = Inr (PStr []))"
proof -
  note t1 = price_mapping_total [of "''PRICE_LEVEL_MODERATE''" "[(''id'', PStr ''abc'')]"
              real_arith "\<lambda>v. []" "\<lambda>v. []" None]
  note t2 = price_mapping_total [of "''PRICE_LEVEL_UNSPECIFIED''" "[(''id'', PStr ''abc'')]"
              real_arith "\<lambda>v. []" "\<lambda>v. []" None]
  have n: "map_of [(''id'', PStr ''abc'')] ''priceLevel'' = None" by simp
  obtain r where r: "place_result real_arith (\<lambda>v. []) (\<lambda>v. []) None (PDict [(''id'', PStr ''abc'')]) = Inr r"
    by (simp add: place_result_def err_bind_def price_lookup_def price_map_def)
  from t1 n have e: "err_bind (py_get (PDict [(''id'', PStr ''abc'')]) ''priceLevel'' (PStr []))
                       price_lookup = Inr []"
    by blast
  from t1 r have "err_bind (err_bind (py_get (PDict [(''id'', PStr ''abc'')]) ''priceLevel'' (PStr []))
                     price_lookup) (\<lambda>p. Inr (PStr p)) = py_get r ''price_level'' PNone"
    by blast
  then have p: "py_get r ''price_level'' PNone = Inr (PStr [])"
    by (simp add: err_bind_def price_lookup_def price_map_def)
  have "price_lookup (PStr ''PRICE_LEVEL_MODERATE'') = Inr ''$$''" using t1 by simp
  moreover have "price_lookup (PStr ''PRICE_LEVEL_UNSPECIFIED'') = Inr []" using t2 by simp
  ultimately show ?thesis using n e r p by blast
qed

subsection \<open>Track format parser\<close>

lemma add_points_eq: "add_points ps acc = acc @ map (\<lambda>p. (latitude p, longitude p)) ps"
  by (induction ps arbitrary: acc) auto

lemma add_segments_eq: "add_segments ss acc = acc @ map (\<lambda>p. (latitude p, longitude p)) (concat ss)"
  by (induction ss arbitrary: acc) (auto simp: add_points_eq)

lemma add_routes_eq: "add_routes ss acc = acc @ map (\<lambda>p. (latitude p, longitude p)) (concat ss)"
  by (induction ss arbitrary: acc) (auto simp: add_points_eq)

lemma add_tracks_eq: "add_tracks ts acc = acc @ map (\<lambda>p. (latitude p, longitude p)) (concat (concat ts))"
  by (induction ts arbitrary: acc) (auto simp: add_segments_eq)

text \<open>
  Claim C8. For a document that \<open>gpxpy\<close> parses, \<open>parse_gpx\<close> returns the coordinates
  of exactly one tier: all points of all track segments if there is any, else all points
  of all routes if there is any, else all waypoints; tiers are never merged. A document
  with no point in any tier yields the empty route, not an error.
\<close>

theorem parse_gpx_tiers:
  assumes "gpxpy_parse file_content = Inr g"
  shows "parse_gpx gpxpy_parse file_content =
           Inr (if coords (concat (concat (tracks g))) \<noteq> [] then coords (concat (concat (tracks g)))
                else if coords (concat (routes g)) \<noteq> [] then coords (concat (routes g))
                else coords (waypoints g))
         \<and> (concat (concat (tracks g)) = [] \<and> concat (routes g) = [] \<and> waypoints g = []
              \<longrightarrow> parse_gpx gpxpy_parse file_content = Inr [])"
  using assms
  by (simp add: parse_gpx_def err_bind_def Let_def coords_def
        add_tracks_eq add_routes_eq add_points_eq)

theorem parse_gpx_tiers_witness:
  "parse_gpx (\<lambda>b. Inr \<lparr>tracks = [], routes = [],
                        waypoints = [\<lparr>latitude = 30, longitude = -97\<rparr>,
                                     \<lparr>latitude = 31, longitude = -98\<rparr>]\<rparr>) ()
     = Inr [(30, -97), (31, -98)]"
  using parse_gpx_tiers [of "\<lambda>b. Inr \<lparr>tracks = [], routes = [],
                        waypoints = [\<lparr>latitude = 30, longitude = -97\<rparr>,
                                     \<lparr>latitude = 31, longitude = -98\<rparr>]\<rparr>" "()"]
  by (simp add: coords_def)

subsection \<open>Filter loop\<close>

lemma filter_results_kept:
  "filter_results mr pf on md results = Inr out \<Longrightarrow> x \<in> set out
     \<Longrightarrow> keeps mr pf on md x = Inr True"
proof (induction results arbitrary: out)
  case Nil
  then show ?case by simp
next
  case (Cons p ps)
  then show ?case
    by (auto simp: err_bind_def split: sum.splits if_splits)
qed

lemma skip_price_excludes:
  assumes "skip_price pf place = Inr True"
  shows "keeps mr pf on md place \<noteq> Inr True"
  using assms by (auto simp: keeps_def err_bind_def split: sum.splits)

text \<open>
  Claim C6. With a non-empty allowed set, a place without a recognized price tier (its
  \<open>price_level\<close> is \<open>None\<close> or empty) is never skipped by the price test, so the filter
  treats it as if no price filter were set; a place whose tier is not in the allowed set is
  skipped and is not in the output. For the results \<open>[{price_level: "$$"},
  {price_level: None}]\<close> and the allowed set \<open>{"$"}\<close>, with the other filters at their
  defaults, the output is exactly \<open>[{price_level: None}]\<close>.
\<close>

theorem price_filter_policy:
  assumes "price_filter \<noteq> []" and "py_get place ''price_level'' PNone = Inr v"
  shows "(\<not> truthy v \<longrightarrow>
            skip_price price_filter place = Inr False
            \<and> keeps min_rating price_filter open_now_only max_distance_mi place
                = keeps min_rating [] open_now_only max_distance_mi place)
       \<and> (truthy v \<and> v \<notin> set (map PStr price_filter) \<longrightarrow>
            skip_price price_filter place = Inr True
            \<and> (\<forall>results out.
                  filter_results min_rating price_filter open_now_only max_distance_mi results = Inr out
                  \<longrightarrow> place \<notin> set out))
       \<and> filter_results 0 [''$''] False 5
            [PDict [(''price_level'', PStr ''$$'')], PDict [(''price_level'', PNone)]]
          = Inr [PDict [(''price_level'', PNone)]]"
proof (intro conjI impI allI)
  assume "\<not> truthy v"
  with assms show f: "skip_price price_filter place = Inr False"
    by (simp add: skip_price_def err_bind_def)
  have "skip_price [] place = Inr False"
    using assms by (simp add: skip_price_def err_bind_def)
  with f show "keeps min_rating price_filter open_now_only max_distance_mi place
                = keeps min_rating [] open_now_only max_distance_mi place"
    by (simp add: keeps_def cong: if_cong)
next
  assume "truthy v \<and> v \<notin> set (map PStr price_filter)"
  with assms show "skip_price price_filter place = Inr True"
    by (simp add: skip_price_def err_bind_def)
next
  fix results out
  assume a: "truthy v \<and> v \<notin> set (map PStr price_filter)"
    and f: "filter_results min_rating price_filter open_now_only max_distance_mi results = Inr out"
  from a assms have "skip_price price_filter place = Inr True"
    by (simp add: skip_price_def err_bind_def)
  then have "keeps min_rating price_filter open_now_only max_distance_mi place \<noteq> Inr True"
    by (rule skip_price_excludes)
  with filter_results_kept [OF f] show "place \<notin> set out" by blast
next
  show "filter_results 0 [''$''] False 5
            [PDict [(''price_level'', PStr ''$$'')], PDict [(''price_level'', PNone)]]
          = Inr [PDict [(''price_level'', PNone)]]"
    by (simp add: keeps_def skip_rating_def skip_price_def skip_open_def skip_distance_def
          err_bind_def)
qed

theorem price_filter_policy_witness:
  "[''$''] \<noteq> []
   \<and> py_get (PDict [(''price_level'', PStr ''$$'')]) ''price_level'' PNone = Inr (PStr ''$$'')
   \<and> truthy (PStr ''$$'') \<and> PStr ''$$'' \<notin> set (map PStr [''$''])
   \<and> skip_price [''$''] (PDict [(''price_level'', PStr ''$$'')]) = Inr True
   \<and> py_get (PDict [(''price_level'', PStr [])]) ''price_level'' PNone = Inr (PStr [])
   \<and> \<not> truthy (PStr [])
   \<and> skip_price [''$''] (PDict [(''price_level'', PStr [])]) = Inr False"
  using price_filter_policy [of "[''$'']" "PDict [(''price_level'', PStr ''$$'')]" "PStr ''$$''" 0 False 5]
        price_filter_policy [of "[''$'']" "PDict [(''price_level'', PStr [])]" "PStr []" 0 False 5]
  by simp

subsection \<open>Distance from the route\<close>




lemma great_circle_eq:
  "great_circle a b (c, d) =
     6371000 * (2 * atan2 (sqrt (hav_a a b c d)) (sqrt (1 - hav_a a b c d)))"
  using haversine_real [of a b c d] haversine_real_formula [of a b c d]
  by (simp add: great_circle_def)

lemma haversine_real_great_circle:
  "haversine_distance real_arith (Finite a) (Finite b) (Finite c) (Finite d)
     = Inr (Finite (great_circle a b (c, d)))"
  by (simp add: haversine_real_formula great_circle_def)

lemma great_circle_nonneg: "0 \<le> great_circle a b (c, d)"
proof -
  have "0 \<le> atan2 (sqrt (hav_a a b c d)) (sqrt (1 - hav_a a b c d))"
    using hav_a_nonneg [of a b c d] hav_a_le_1 [of a b c d]
    by (intro atan2_nonneg) simp_all
  then show ?thesis by (simp add: great_circle_eq)
qed


















subsection \<open>Route compressor: the selected items\<close>


lemma downsample_points_small:
  "int (length points) \<le> max_points \<Longrightarrow> downsample_points points max_points = Inr points"
  by (simp only: downsample_points_def if_True)

lemma downsample_points_large:
  "\<not> int (length points) \<le> max_points \<Longrightarrow>
   downsample_points points max_points =
     err_bind (py_truediv (int (length points) - 1) (max_points - 1)) (\<lambda>step.
       index_all points (map (\<lambda>i. py_int (int_times_float i step)) [0..max_points - 2]
                      @ [int (length points) - 1]))"
  by (simp only: downsample_points_def if_False Let_def)




subsection \<open>What the sample of the route keeps\<close>




subsection \<open>Search client: coordinates and distances that are zero\<close>

lemma distance_at_first_vertex:
  assumes "exact_at_zero ar"
    and "haversine_distance ar (Finite a) (Finite b) (fst q) (snd q) = Inr d"
    and "\<not> flt d (Finite 0)"
  shows "distance_from_route ar (Finite a) (Finite b) [(Finite a, Finite b), q] = Inr (Finite 0)"
proof -
  have s: "slice_step [(Finite a, Finite b), q] (max 1 (length [(Finite a, Finite b), q] div 100))
             = [(Finite a, Finite b), q]"
    by simp
  show ?thesis
    unfolding distance_from_route_def Let_def s
    by (simp add: haversine_distance_same [OF assms(1)] assms(2,3) err_bind_def)
qed

text \<open>
  Claim C3 states that \<open>distance_mi\<close> is present exactly when \<open>distance_m\<close> is, and that
  the display string is empty exactly when no distance is known. The code tests the
  distance for truth instead of for \<open>None\<close>: for a place that lies exactly on the first
  vertex of the route, \<open>distance_m\<close> is 0.0 while \<open>distance_mi\<close> is \<open>None\<close> and the display
  string is empty. This holds in every arithmetic that is exact at zero and in which the
  distance \<open>d\<close> to the second vertex is not negative.
\<close>

theorem zero_distance_drops_miles:
  assumes "exact_at_zero ar"
    and "haversine_distance ar (Finite 30) (Finite (- 97)) (Finite 31) (Finite (- 97)) = Inr d"
    and "\<not> flt d (Finite 0)"
  shows "err_bind (place_result ar (\<lambda>v. []) (\<lambda>v. [])
                     (Some [(Finite 30, Finite (- 97)), (Finite 31, Finite (- 97))])
       (PDict [(''id'', PStr ''abc''),
               (''location'', PDict [(''latitude'', PNum (Finite 30)),
                                     (''longitude'', PNum (Finite (- 97)))])]))
     (\<lambda>r. Inr (field r ''distance_m'',
              field r ''distance_mi'',
              field r ''distance_display''))
   = Inr (Some (PNum (Finite 0)), Some PNone, Some (PStr []))"
proof -
  have "haversine_distance ar (Finite 30) (Finite (- 97))
          (fst (Finite 31, Finite (- 97))) (snd (Finite 31, Finite (- 97))) = Inr d"
    using assms(2) by simp
  from distance_at_first_vertex [OF assms(1) this assms(3)]
  show ?thesis
    by (simp add: place_result_def err_bind_def place_distance_def
        price_lookup_def price_map_def field_def)
qed

theorem zero_distance_drops_miles_witness:
  "exact_at_zero real_arith
   \<and> haversine_distance real_arith (Finite 30) (Finite (- 97)) (Finite 31) (Finite (- 97))
       = Inr (Finite (great_circle 30 (- 97) (31, - 97)))
   \<and> \<not> flt (Finite (great_circle 30 (- 97) (31, - 97))) (Finite 0)
   \<and> err_bind (place_result real_arith (\<lambda>v. []) (\<lambda>v. [])
                     (Some [(Finite 30, Finite (- 97)), (Finite 31, Finite (- 97))])
       (PDict [(''id'', PStr ''abc''),
               (''location'', PDict [(''latitude'', PNum (Finite 30)),
                                     (''longitude'', PNum (Finite (- 97)))])]))
     (\<lambda>r. Inr (field r ''distance_m'',
              field r ''distance_mi'',
              field r ''distance_display''))
   = Inr (Some (PNum (Finite 0)), Some PNone, Some (PStr []))"
proof -
  have h: "haversine_distance real_arith (Finite 30) (Finite (- 97)) (Finite 31) (Finite (- 97))
       = Inr (Finite (great_circle 30 (- 97) (31, - 97)))"
    by (rule haversine_real_great_circle)
  have n: "\<not> flt (Finite (great_circle 30 (- 97) (31, - 97))) (Finite 0)"
    using great_circle_nonneg [of 30 "- 97" 31 "- 97"] by simp
  from zero_distance_drops_miles [OF exact_at_zero_real h n] exact_at_zero_real h n
  show ?thesis by blast
qed

text \<open>
  Claim C4 states that the distance is computed exactly when the place has both a
  latitude and a longitude and the route is non-empty. The code tests the two values
  for truth: for a place on the equator (latitude 0.0, longitude 36.0) and a route of
  two points, both coordinates are in the result while \<open>distance_m\<close> and \<open>distance_mi\<close>
  are \<open>None\<close>, in every arithmetic.
\<close>

theorem zero_latitude_skips_distance:
  "err_bind (place_result ar (\<lambda>v. []) (\<lambda>v. [])
               (Some [(Finite 1, Finite 36), (Finite 2, Finite 36)])
       (PDict [(''id'', PStr ''abc''),
               (''location'', PDict [(''latitude'', PNum (Finite 0)),
                                     (''longitude'', PNum (Finite 36))])]))
     (\<lambda>r. Inr (field r ''lat'',
              field r ''lon'',
              field r ''distance_m'',
              field r ''distance_mi''))
   = Inr (Some (PNum (Finite 0)), Some (PNum (Finite 36)), Some PNone, Some PNone)"
  by (simp add: place_result_def err_bind_def price_lookup_def price_map_def field_def)

text \<open>
  Claim C7 states that a place without an identifier gets the coordinate-based search
  link whenever it has a coordinate. By the same truth test, a place on the prime
  meridian (latitude 51.4779, longitude 0.0) without an identifier gets the empty link,
  in every arithmetic.
\<close>

theorem zero_longitude_empty_link:
  "err_bind (place_result ar (\<lambda>v. ''?'') (\<lambda>v. [])
               (Some [(Finite 51, Finite 0), (Finite 52, Finite 0)])
       (PDict [(''location'', PDict [(''latitude'', PNum (Finite 51.4779)),
                                     (''longitude'', PNum (Finite 0))])]))
     (\<lambda>r. Inr (field r ''lat'',
              field r ''lon'',
              field r ''maps_url''))
   = Inr (Some (PNum (Finite 51.4779)), Some (PNum (Finite 0)), Some (PStr []))"
  by (simp add: place_result_def err_bind_def price_lookup_def price_map_def field_def)

subsection \<open>Route compressor: rounding to double precision\<close>

lemma round_even_err: "\<bar>of_int (round_even y) - y\<bar> \<le> 1 / 2"
proof -
  have "of_int \<lfloor>y\<rfloor> \<le> y" "y < of_int \<lfloor>y\<rfloor> + 1" by linarith+
  then show ?thesis by (auto simp: round_even_def Let_def)
qed

lemma round_even_int: "round_even (of_int z) = z"
  by (simp add: round_even_def)

lemma round_even_mono_int: "of_int z \<le> y \<Longrightarrow> z \<le> round_even y"
proof -
  assume "of_int z \<le> y"
  then have "z \<le> \<lfloor>y\<rfloor>" by (simp add: le_floor_iff)
  then show ?thesis by (auto simp: round_even_def Let_def)
qed

lemma scale2_mult: "scale2 x k = x * scale2 1 k"
  by (simp add: scale2_def)

lemma scale2_1_pos: "0 < scale2 1 k"
  by (simp add: scale2_def)

lemma scale2_neg: "scale2 x (- k) = x / scale2 1 k"
  by (cases "k = 0") (auto simp: scale2_def)

lemma scale2_1_val:
  assumes "0 \<le> e"
  shows "scale2 1 (e - 52) * 2 ^ 52 = 2 ^ nat e"
proof (cases "52 \<le> e")
  case True
  then have "nat e = nat (e - 52) + 52" by simp
  then have "(2 :: rat) ^ nat e = 2 ^ nat (e - 52) * 2 ^ 52" by (simp only: power_add)
  with True show ?thesis by (simp add: scale2_def)
next
  case False
  then have "52 = nat (52 - e) + nat e" using assms by simp
  then have eq: "(2 :: rat) ^ 52 = 2 ^ nat (52 - e) * 2 ^ nat e" by (simp only: power_add)
  have s: "scale2 1 (e - 52) = 1 / 2 ^ nat (52 - e)"
    using False by (simp add: scale2_def)
  have "scale2 1 (e - 52) * 2 ^ 52 = (1 / 2 ^ nat (52 - e)) * (2 ^ nat (52 - e) * 2 ^ nat e)"
    by (simp only: s eq)
  also have "\<dots> = 2 ^ nat e" by simp
  finally show ?thesis .
qed

lemma ilog2_bounds:
  assumes "1 \<le> x"
  shows "0 \<le> ilog2 x" and "2 ^ nat (ilog2 x) \<le> x" and "x < 2 * 2 ^ nat (ilog2 x)"
proof -
  define z where "z = \<lfloor>x\<rfloor>"
  have z: "1 \<le> z" using assms by (simp add: z_def le_floor_iff)
  have e: "ilog2 x = bitlen z - 1" using assms by (simp add: ilog2_def z_def)
  from z have b: "2 ^ nat (bitlen z - 1) \<le> z" "z < 2 ^ nat (bitlen z)"
    using bitlen_bounds [of z] by simp_all
  have "bitlen z \<noteq> 0" using z by (simp add: bitlen_eq_zero_iff)
  then have pos: "1 \<le> bitlen z" using bitlen_nonneg [of z] by linarith
  then show "0 \<le> ilog2 x" by (simp add: e)
  have "(2 :: rat) ^ nat (ilog2 x) = of_int (2 ^ nat (bitlen z - 1))" by (simp add: e)
  also have "\<dots> \<le> of_int z" using b(1) by (simp only: of_int_le_iff)
  also have "\<dots> \<le> x" by (simp add: z_def)
  finally show "2 ^ nat (ilog2 x) \<le> x" .
  have "nat (bitlen z) = Suc (nat (bitlen z - 1))" using pos by simp
  then have "z + 1 \<le> 2 * 2 ^ nat (ilog2 x)" using b(2) by (simp add: e)
  then have "(of_int (z + 1) :: rat) \<le> of_int (2 * 2 ^ nat (ilog2 x))"
    by (simp only: of_int_le_iff)
  moreover have "x < of_int (z + 1)" unfolding z_def of_int_add of_int_1 by linarith
  ultimately show "x < 2 * 2 ^ nat (ilog2 x)" by simp
qed

lemma fl_pos_eq:
  assumes "1 \<le> x"
  shows "fl x = of_int (round_even (x / scale2 1 (ilog2 x - 52))) * scale2 1 (ilog2 x - 52)"
proof -
  have "0 < x" using assms by simp
  then have "fl x = scale2 (of_int (round_even (scale2 x (- (ilog2 x - 52))))) (ilog2 x - 52)"
    by (simp add: fl_def Let_def)
  also have "\<dots> = of_int (round_even (x / scale2 1 (ilog2 x - 52))) * scale2 1 (ilog2 x - 52)"
    by (simp only: scale2_neg scale2_mult [of "of_int _"])
  finally show ?thesis .
qed

lemma fl_err:
  assumes "1 \<le> x"
  shows "\<bar>fl x - x\<bar> \<le> x / 2 ^ 53"
proof -
  define c where "c = scale2 1 (ilog2 x - 52)"
  define y where "y = x / c"
  define m :: rat where "m = of_int (round_even y)"
  have c: "0 < c" by (simp add: c_def scale2_1_pos)
  have yc: "y * c = x" using c by (simp add: y_def)
  have f: "fl x = m * c" by (simp add: fl_pos_eq [OF assms] c_def y_def m_def)
  have "\<bar>m - y\<bar> \<le> 1 / 2" unfolding m_def by (rule round_even_err)
  then have "\<bar>m - y\<bar> * c \<le> (1 / 2) * c" using c by (intro mult_right_mono) simp_all
  moreover have "fl x - x = (m - y) * c"
  proof -
    have "fl x - x = m * c - y * c" by (simp only: f yc)
    then show ?thesis by (simp add: algebra_simps)
  qed
  ultimately have 1: "\<bar>fl x - x\<bar> \<le> c / 2" using c by (simp add: abs_mult)
  have "c * 2 ^ 52 = 2 ^ nat (ilog2 x)"
    unfolding c_def by (rule scale2_1_val) (rule ilog2_bounds(1) [OF assms])
  also have "\<dots> \<le> x" by (rule ilog2_bounds(2) [OF assms])
  finally have "c * 2 ^ 52 \<le> x" .
  then have "c \<le> x / 2 ^ 52" by (simp add: pos_le_divide_eq)
  then have "c / 2 \<le> x / 2 ^ 52 / 2" by (rule divide_right_mono) simp
  also have "x / 2 ^ 52 / 2 = x / 2 ^ 53" by simp
  finally show ?thesis using 1 by linarith
qed

lemma fl_ge_1:
  assumes "1 \<le> x"
  shows "1 \<le> fl x"
proof -
  define c where "c = scale2 1 (ilog2 x - 52)"
  have c: "0 < c" by (simp add: c_def scale2_1_pos)
  have cE: "c * 2 ^ 52 = 2 ^ nat (ilog2 x)"
    unfolding c_def by (rule scale2_1_val) (rule ilog2_bounds(1) [OF assms])
  have "c * 2 ^ 52 \<le> x" unfolding cE by (rule ilog2_bounds(2) [OF assms])
  then have "2 ^ 52 \<le> x / c" using c by (simp add: pos_le_divide_eq mult.commute)
  then have "of_int (2 ^ 52) \<le> x / c" by simp
  then have "(2 :: int) ^ 52 \<le> round_even (x / c)" by (rule round_even_mono_int)
  then have "(of_int ((2 :: int) ^ 52) :: rat) \<le> of_int (round_even (x / c))"
    by (simp only: of_int_le_iff)
  then have "2 ^ 52 * c \<le> of_int (round_even (x / c)) * c"
    using c by (intro mult_right_mono) simp_all
  then have "2 ^ nat (ilog2 x) \<le> fl x"
    using cE by (simp add: fl_pos_eq [OF assms] c_def mult.commute)
  moreover have "(1 :: rat) \<le> 2 ^ nat (ilog2 x)" by simp
  ultimately show ?thesis by linarith
qed

lemma fl_of_int:
  assumes "1 \<le> z" "z < 2 ^ 53"
  shows "fl (of_int z) = of_int z"
proof -
  define x :: rat where "x = of_int z"
  have x1: "1 \<le> x" using assms(1) by (simp add: x_def)
  define e where "e = ilog2 x"
  have e0: "0 \<le> e" unfolding e_def by (rule ilog2_bounds(1) [OF x1])
  have "(2 :: rat) ^ nat e \<le> x" unfolding e_def by (rule ilog2_bounds(2) [OF x1])
  also have "x < 2 ^ 53" using assms(2) unfolding x_def
    by (metis of_int_less_iff of_int_numeral of_int_power)
  finally have "nat e < 53" by (simp only: power_strict_increasing_iff one_less_numeral_iff semiring_norm)
  then have e52: "e \<le> 52" by simp
  define d where "d = nat (52 - e)"
  have c: "scale2 1 (e - 52) = 1 / 2 ^ d"
  proof (cases "e = 52")
    case True
    then show ?thesis by (simp add: scale2_def d_def)
  next
    case False
    with e52 show ?thesis by (simp add: scale2_def d_def)
  qed
  have "x / scale2 1 (e - 52) = of_int (z * 2 ^ d)" by (simp add: c x_def)
  then have "round_even (x / scale2 1 (e - 52)) = z * 2 ^ d" by (simp only: round_even_int)
  then have "fl x = of_int (z * 2 ^ d) * (1 / 2 ^ d)"
    by (simp only: fl_pos_eq [OF x1] e_def [symmetric] c)
  then show ?thesis by (simp add: x_def)
qed

subsection \<open>Route compressor: the computed indices\<close>

lemma int_times_float_zero: "py_int (int_times_float 0 s) = 0"
  by (simp add: int_times_float_def fl_def py_int_def)

lemma index_product_error:
  fixes N M i :: int
  assumes "1 \<le> M" "M < N" "N \<le> 2 ^ 42" "1 \<le> i" "i < M"
  shows "1 \<le> int_times_float i (fl (of_int N / of_int M))"
    and "\<bar>int_times_float i (fl (of_int N / of_int M)) - of_int i * (of_int N / of_int M)\<bar> \<le> 3 / 2048"
    and "(of_int i :: rat) * (of_int N / of_int M) \<le> of_int N - 1"
proof -
  define t :: rat where "t = of_int N / of_int M"
  define s where "s = fl t"
  define w where "w = of_int i * s"
  define x where "x = of_int i * t"
  define p where "p = int_times_float i s"
  have M0: "(0 :: rat) < of_int M" using assms(1) by simp
  have t1: "1 \<le> t" unfolding t_def using assms(1,2) by (simp add: le_divide_eq)
  have s1: "1 \<le> s" unfolding s_def by (rule fl_ge_1 [OF t1])
  have se: "\<bar>s - t\<bar> \<le> t / 2 ^ 53" unfolding s_def by (rule fl_err [OF t1])
  have "i < 2 ^ 53" using assms by simp
  then have fi: "fl (of_int i) = of_int i" by (rule fl_of_int [OF assms(4)])
  have i1: "(1 :: rat) \<le> of_int i" using assms(4) by simp
  have "1 * 1 \<le> of_int i * s" using i1 s1 by (intro mult_mono) simp_all
  then have w1: "1 \<le> w" by (simp add: w_def)
  have p: "p = fl w" by (simp add: p_def int_times_float_def fi w_def)
  show "1 \<le> int_times_float i (fl (of_int N / of_int M))"
    using fl_ge_1 [OF w1] by (simp add: p [symmetric] p_def s_def t_def)
  have pe: "\<bar>p - w\<bar> \<le> w / 2 ^ 53" unfolding p by (rule fl_err [OF w1])
  have "w - x = of_int i * (s - t)" by (simp add: w_def x_def algebra_simps)
  then have "\<bar>w - x\<bar> = of_int i * \<bar>s - t\<bar>" using i1 by (simp add: abs_mult)
  also have "\<dots> \<le> of_int i * (t / 2 ^ 53)" using se i1 by (intro mult_left_mono) simp_all
  also have "\<dots> = x / 2 ^ 53" by (simp add: x_def)
  finally have we: "\<bar>w - x\<bar> \<le> x / 2 ^ 53" .
  have Mt: "of_int M * t = of_int N" using M0 by (simp add: t_def)
  have "of_int i * t \<le> of_int (M - 1) * t"
    using assms(5) t1 by (intro mult_right_mono) simp_all
  also have "\<dots> = of_int N - t" using Mt by (simp add: algebra_simps)
  finally have xN: "x \<le> of_int N - t" by (simp add: x_def)
  with t1 show "(of_int i :: rat) * (of_int N / of_int M) \<le> of_int N - 1"
    by (simp add: x_def t_def)
  have "(of_int N :: rat) \<le> of_int (2 ^ 42)" using assms(3) by (simp only: of_int_le_iff)
  then have N42: "(of_int N :: rat) \<le> 4398046511104" by simp
  have x0: "0 \<le> x" using i1 t1 by (simp add: x_def)
  have D: "(2 :: rat) ^ 53 = 9007199254740992" by simp
  from pe we xN t1 N42 x0 have "\<bar>p - x\<bar> \<le> 3 / 2048" unfolding D by linarith
  then show "\<bar>int_times_float i (fl (of_int N / of_int M)) - of_int i * (of_int N / of_int M)\<bar> \<le> 3 / 2048"
    by (simp add: p_def s_def t_def x_def)
qed

lemma index_in_range:
  fixes N M i :: int
  assumes "1 \<le> M" "M < N" "N \<le> 2 ^ 42" "0 \<le> i" "i < M"
  shows "0 \<le> py_int (int_times_float i (fl (of_int N / of_int M)))"
    and "py_int (int_times_float i (fl (of_int N / of_int M))) < N"
proof -
  let ?p = "int_times_float i (fl (of_int N / of_int M))"
  have "0 \<le> py_int ?p \<and> py_int ?p < N"
  proof (cases "i = 0")
    case True
    with assms show ?thesis by (simp add: int_times_float_zero)
  next
    case False
    with assms(4) have i1: "1 \<le> i" by simp
    note e = index_product_error [OF assms(1,2,3) i1 assms(5)]
    have p1: "1 \<le> ?p" by (rule e(1))
    then have pi: "py_int ?p = \<lfloor>?p\<rfloor>" by (simp add: py_int_def)
    have "?p < of_int N" using e(2) e(3) by linarith
    then have "\<lfloor>?p\<rfloor> < N" by (simp add: floor_less_iff)
    moreover have "0 \<le> \<lfloor>?p\<rfloor>" using p1 by simp
    ultimately show ?thesis by (simp add: pi)
  qed
  then show "0 \<le> py_int ?p" and "py_int ?p < N" by simp_all
qed

lemma no_small_divisor: "\<forall>d \<in> set [2..<23]. \<not> d dvd (499 :: nat)"
  by code_simp

lemma divisor_499:
  fixes d :: nat
  assumes "d dvd 499" "d < 499"
  shows "d = 1"
proof (rule ccontr)
  assume d1: "d \<noteq> 1"
  from assms(1) obtain e where e: "499 = d * e" by (auto simp: dvd_def)
  have d0: "d \<noteq> 0" using e by (cases "d = 0") simp_all
  have e0: "e \<noteq> 0" using e by (cases "e = 0") simp_all
  have e1: "e \<noteq> 1" using e assms(2) by (cases "e = 1") simp_all
  have d2: "2 \<le> d" using d0 d1 by simp
  have e2: "2 \<le> e" using e0 e1 by simp
  have "d < 23 \<or> e < 23"
  proof (rule ccontr)
    assume "\<not> (d < 23 \<or> e < 23)"
    then have "23 * 23 \<le> d * e" by (intro mult_mono) simp_all
    with e show False by simp
  qed
  then show False
  proof
    assume "d < 23"
    with d2 have "d \<in> set [2..<23]" by (simp only: set_upt atLeastLessThan_iff)
    with no_small_divisor assms(1) show False by blast
  next
    assume "e < 23"
    with e2 have "e \<in> set [2..<23]" by (simp only: set_upt atLeastLessThan_iff)
    moreover have "e dvd 499" unfolding e by simp
    ultimately show False using no_small_divisor by blast
  qed
qed

lemma coprime_499:
  fixes i :: int
  assumes "1 \<le> i" "i < 499"
  shows "coprime 499 i"
proof -
  define j where "j = nat i"
  have j: "1 \<le> j" "j < 499" "i = int j" using assms by (simp_all add: j_def)
  have "gcd 499 j dvd 499" by simp
  moreover have "gcd 499 j \<le> j" using j(1) by (intro gcd_le2_nat) simp
  ultimately have "gcd 499 j = 1" using j(2) by (intro divisor_499) simp_all
  then have "coprime (499 :: nat) j" by (simp only: coprime_iff_gcd_eq_1)
  then have "coprime (int 499) (int j)" by (simp only: coprime_int_iff)
  then show ?thesis by (simp add: j(3))
qed

lemma py_int_of_int: "py_int (of_int z) = z"
  by (simp add: py_int_def)

lemma index_500:
  fixes N i :: int
  assumes "499 < N" "N \<le> 2 ^ 42" "1 \<le> i" "i < 499"
  shows "py_int (int_times_float i (fl (of_int N / 499))) = i * N div 499"
proof (cases "499 dvd N")
  case True
  then obtain K where K: "N = 499 * K" ..
  have K1: "1 \<le> K" using assms(1) K by simp
  have K53: "K < 2 ^ 53" using assms(2) K by simp
  have "1 * 1 \<le> i * K" using assms(3) K1 by (intro mult_mono) simp_all
  then have iK1: "1 \<le> i * K" by simp
  have "i * K \<le> 499 * K" using assms(4) K1 by (intro mult_right_mono) simp_all
  then have iK53: "i * K < 2 ^ 53" using assms(2) K by simp
  have i53: "i < 2 ^ 53" using assms(4) by simp
  have "(of_int N :: rat) / 499 = of_int K" by (simp add: K)
  then have "int_times_float i (fl (of_int N / 499)) = fl (fl (of_int i) * fl (of_int K))"
    by (simp only: int_times_float_def)
  also have "\<dots> = fl (of_int (i * K))"
    by (simp only: fl_of_int [OF assms(3) i53] fl_of_int [OF K1 K53] of_int_mult)
  also have "\<dots> = of_int (i * K)" by (rule fl_of_int [OF iK1 iK53])
  finally have "py_int (int_times_float i (fl (of_int N / 499))) = i * K"
    by (simp only: py_int_of_int)
  moreover have "i * N div 499 = i * K" by (simp add: K)
  ultimately show ?thesis by simp
next
  case False
  have "coprime 499 i" by (rule coprime_499 [OF assms(3,4)])
  then have nd: "\<not> 499 dvd i * N" using False by (simp add: coprime_dvd_mult_right_iff)
  define q where "q = i * N div 499"
  define r where "r = i * N mod 499"
  have r: "1 \<le> r" "r \<le> 498"
    using nd by (simp_all add: r_def dvd_eq_mod_eq_0 order_less_le) 
  have "i * N = 499 * q + r" by (simp add: q_def r_def)
  then have "(of_int (i * N) :: rat) = of_int (499 * q + r)" by simp
  then have x: "(of_int i :: rat) * (of_int N / of_int 499) = of_int q + of_int r / 499"
    by simp
  let ?p = "int_times_float i (fl (of_int N / of_int 499))"
  have M: "(1 :: int) \<le> 499" by simp
  note e = index_product_error [OF M assms(1,2,3,4)]
  have r': "(1 :: rat) \<le> of_int r" "(of_int r :: rat) \<le> 498"
    using r by simp_all
  have "of_int q \<le> ?p" using e(2) x r' by linarith
  moreover have "?p < of_int q + 1" using e(2) x r' by linarith
  ultimately have "\<lfloor>?p\<rfloor> = q" by (simp add: floor_unique)
  moreover have "py_int ?p = \<lfloor>?p\<rfloor>" using e(1) by (simp add: py_int_def)
  ultimately show ?thesis by (simp add: q_def)
qed

lemma py_index_int: "0 \<le> i \<Longrightarrow> i < int (length xs) \<Longrightarrow> py_index xs i = Inr (xs ! nat i)"
  by (simp add: py_index_def)

lemma index_all_map:
  "(\<And>i. i \<in> set js \<Longrightarrow> 0 \<le> i \<and> i < int (length points))
     \<Longrightarrow> index_all points js = Inr (map (\<lambda>i. points ! nat i) js)"
proof (induction js)
  case Nil
  then show ?case by simp
next
  case (Cons j js)
  have "py_index points j = Inr (points ! nat j)"
    using Cons.prems [of j] by (simp add: py_index_int)
  moreover have "index_all points js = Inr (map (\<lambda>i. points ! nat i) js)"
    using Cons.prems by (intro Cons.IH) simp
  ultimately show ?case by (simp add: err_bind_def)
qed

lemma downsample_points_indices:
  assumes "2 \<le> m" "m < int (length points)" "length points \<le> 2 ^ 42"
  shows "downsample_points points m =
           Inr (map (\<lambda>i. points ! nat (py_int (int_times_float i
                  (fl (of_int (int (length points) - 1) / of_int (m - 1))))))
                  [0..m - 2] @ [last points])"
    and "\<forall>i \<in> set [0..m - 2].
           0 \<le> py_int (int_times_float i (fl (of_int (int (length points) - 1) / of_int (m - 1))))
           \<and> py_int (int_times_float i (fl (of_int (int (length points) - 1) / of_int (m - 1))))
               < int (length points)"
proof -
  define N where "N = int (length points) - 1"
  define M where "M = m - 1"
  define step where "step = fl (of_int N / of_int M)"
  define f where "f = (\<lambda>i. py_int (int_times_float i step))"
  have M1: "1 \<le> M" using assms(1) by (simp add: M_def)
  have MN: "M < N" using assms(2) by (simp add: M_def N_def)
  have "int (length points) \<le> int (2 ^ 42)" using assms(3) by (simp only: of_nat_le_iff)
  then have N42: "N \<le> 2 ^ 42" by (simp add: N_def)
  have ne: "points \<noteq> []" using assms(1,2) by auto
  have rng: "0 \<le> f i \<and> f i < N" if "i \<in> set [0..m - 2]" for i
  proof -
    from that have i: "0 \<le> i" "i < M" by (simp_all add: M_def)
    show ?thesis unfolding f_def step_def
      using index_in_range [OF M1 MN N42 i] by simp
  qed
  show "\<forall>i \<in> set [0..m - 2].
           0 \<le> py_int (int_times_float i (fl (of_int (int (length points) - 1) / of_int (m - 1))))
           \<and> py_int (int_times_float i (fl (of_int (int (length points) - 1) / of_int (m - 1))))
               < int (length points)"
  proof
    fix i
    assume "i \<in> set [0..m - 2]"
    from rng [OF this] have "0 \<le> f i" "f i < int (length points)" by (simp_all add: N_def)
    then show "0 \<le> py_int (int_times_float i (fl (of_int (int (length points) - 1) / of_int (m - 1))))
           \<and> py_int (int_times_float i (fl (of_int (int (length points) - 1) / of_int (m - 1))))
               < int (length points)"
      by (simp only: f_def step_def N_def M_def simp_thms)
  qed
  have div: "py_truediv (int (length points) - 1) (m - 1) = Inr step"
    using M1 by (simp add: py_truediv_def step_def N_def M_def)
  have large: "\<not> int (length points) \<le> m" using assms(2) by simp
  have "downsample_points points m = index_all points (map f [0..m - 2] @ [N])"
    unfolding downsample_points_large [OF large] div
    by (simp only: err_bind_def sum.case f_def N_def)
  also have "\<dots> = Inr (map (\<lambda>i. points ! nat i) (map f [0..m - 2] @ [N]))"
  proof (rule index_all_map)
    fix i
    assume "i \<in> set (map f [0..m - 2] @ [N])"
    then consider j where "j \<in> set [0..m - 2]" "i = f j" | "i = N" by auto
    then show "0 \<le> i \<and> i < int (length points)"
    proof cases
      case 1
      with rng [of j] show ?thesis by (simp add: N_def)
    next
      case 2
      then show ?thesis using ne by (simp add: N_def)
    qed
  qed
  also have "map (\<lambda>i. points ! nat i) (map f [0..m - 2] @ [N])
      = map (\<lambda>i. points ! nat (f i)) [0..m - 2] @ [points ! nat N]"
    by (simp add: comp_def)
  also have "points ! nat N = last points"
  proof -
    have "nat N = length points - 1" unfolding N_def by arith
    moreover have "last points = points ! (length points - 1)" using ne by (rule last_conv_nth)
    ultimately show ?thesis by simp
  qed
  finally show "downsample_points points m =
           Inr (map (\<lambda>i. points ! nat (py_int (int_times_float i
                  (fl (of_int (int (length points) - 1) / of_int (m - 1))))))
                  [0..m - 2] @ [last points])"
    by (simp only: f_def step_def N_def M_def)
qed

lemma index_7_of_123: "py_int (int_times_float 7 (fl (122 / 14))) = 60"
  by code_simp

text \<open>
  Claim C1 gives the selected indices as \<open>floor(i * (n - 1) / (maxPoints - 1))\<close>. The code
  computes \<open>int(i * step)\<close> with \<open>step = (n - 1) / (maxPoints - 1)\<close> in double precision,
  and the rounded product can fall just below an exact integer quotient: for 123 points
  and \<open>max_points = 15\<close> the item selected for \<open>i = 7\<close> is the one at index 60, while
  \<open>floor(7 * 122 / 14) = 61\<close>. For \<open>max_points = 1\<close> the division raises.
\<close>

theorem downsample_15_of_123_counterexample:
  "nth_selected 7 (downsample_points [0 ..< 123] 15) = Some 60
   \<and> [0 ..< 123] ! nat (7 * (int (length [0 ..< 123]) - 1) div (15 - 1)) = 61
   \<and> downsample_points [0 ..< 2] 1 = Inl ZeroDivisionError"
proof (intro conjI)
  have a: "(2 :: int) \<le> 15" "15 < int (length [0 ..< 123])" "length [0 ..< 123] \<le> 2 ^ 42"
    by simp_all
  have n: "[0..15 - 2] ! 7 = (7 :: int)" by (simp add: nth_upto)
  have l: "length [0..(15 :: int) - 2] = 14" by simp
  have s: "(of_int (int (length [0 ..< 123]) - 1) :: rat) / of_int (15 - 1) = 122 / 14" by simp
  have "nth_selected 7 (downsample_points [0 ..< 123] 15)
          = Some ([0 ..< 123] ! nat (py_int (int_times_float ([0..15 - 2] ! 7) (fl (122 / 14)))))"
    unfolding downsample_points_indices(1) [OF a] s
    by (simp only: nth_selected_def sum.case length_append length_map l nth_append nth_map)
       simp
  then show "nth_selected 7 (downsample_points [0 ..< 123] 15) = Some 60"
    by (simp only: n index_7_of_123) simp
  show "[0 ..< 123] ! nat (7 * (int (length [0 ..< 123]) - 1) div (15 - 1)) = 61"
    by simp
  show "downsample_points [0 ..< 2] 1 = Inl ZeroDivisionError"
    by (simp add: downsample_points_def py_truediv_def err_bind_def)
qed

lemma downsample_points_500:
  assumes "500 < length points" "length points \<le> 2 ^ 42"
  shows "downsample_points points 500 =
              Inr (map (\<lambda>i. points ! nat (i * (int (length points) - 1) div 499)) [0..498]
                   @ [last points])"
proof -
  from assms(1) have m: "(2 :: int) \<le> 500" "500 < int (length points)" by simp_all
  define N where "N = int (length points) - 1"
  have N: "499 < N" "N \<le> 2 ^ 42"
  proof -
    show "499 < N" using assms(1) by (simp add: N_def)
    have "int (length points) \<le> int (2 ^ 42)" using assms(2) by (simp only: of_nat_le_iff)
    then show "N \<le> 2 ^ 42" by (simp add: N_def)
  qed
  have idx: "py_int (int_times_float i (fl (of_int N / of_int (500 - 1)))) = i * N div 499"
    if "i \<in> set [0..500 - 2]" for i
  proof (cases "i = 0")
    case True
    then show ?thesis by (simp add: int_times_float_zero)
  next
    case False
    with that have "1 \<le> i" "i < 499" by simp_all
    from index_500 [OF N this] show ?thesis by simp
  qed
  have "map (\<lambda>i. points ! nat (py_int (int_times_float i (fl (of_int N / of_int (500 - 1))))))
            [0..500 - 2]
        = map (\<lambda>i. points ! nat (i * N div 499)) [0..500 - 2]"
    by (rule map_cong [OF refl]) (simp only: idx)
  then show ?thesis
    unfolding downsample_points_indices(1) [OF m assms(2)] N_def by simp
qed


text \<open>
  Claim C1, amended. A route of \<open>n \<le> maxPoints\<close> coordinates is returned unchanged.
  For a route of \<open>n \<le> 2 ^ 42\<close> coordinates and \<open>2 \<le> maxPoints < n\<close>, the compressor
  returns exactly \<open>maxPoints\<close> coordinates: the ones at index \<open>int(i * step)\<close> for \<open>i\<close> in
  \<open>0..maxPoints - 2\<close> (\<open>step\<close> the double nearest to \<open>(n - 1) / (maxPoints - 1)\<close>, the
  product rounded to double, every index inside the route) followed by the final
  coordinate; the first and last coordinates of the result are the first and last of the
  route. For the value 500 that the compressor passes, these indices are
  \<open>floor(i * (n - 1) / 499)\<close> for \<open>i\<close> in \<open>0..498\<close>, and this list is what \<open>encode_polyline\<close>
  hands to the encoder.
\<close>

theorem downsample_points_selection:
  "(int (length points) \<le> max_points \<longrightarrow> downsample_points points max_points = Inr points)
   \<and> (length points \<le> 2 ^ 42 \<longrightarrow>
       (2 \<le> max_points \<and> max_points < int (length points) \<longrightarrow>
            (\<exists>out. downsample_points points max_points = Inr out
               \<and> out = map (\<lambda>i. points ! nat (py_int (int_times_float i
                            (fl (of_int (int (length points) - 1) / of_int (max_points - 1))))))
                          [0..max_points - 2] @ [last points]
               \<and> (\<forall>i \<in> set [0..max_points - 2].
                     0 \<le> py_int (int_times_float i
                            (fl (of_int (int (length points) - 1) / of_int (max_points - 1))))
                     \<and> py_int (int_times_float i
                            (fl (of_int (int (length points) - 1) / of_int (max_points - 1))))
                         < int (length points))
               \<and> int (length out) = max_points
               \<and> hd out = hd points
               \<and> last out = last points))
       \<and> (500 < length points \<longrightarrow>
            downsample_points points 500 =
              Inr (map (\<lambda>i. points ! nat (i * (int (length points) - 1) div 499)) [0..498]
                   @ [last points]))
       \<and> encode_polyline polyline_encode points =
            Inr (polyline_encode
              (if length points \<le> 500 then points
               else map (\<lambda>i. points ! nat (i * (int (length points) - 1) div 499)) [0..498]
                    @ [last points])))"
proof (intro conjI impI)
  assume "int (length points) \<le> max_points"
  then show "downsample_points points max_points = Inr points"
    by (rule downsample_points_small)
next
  assume bound: "length points \<le> 2 ^ 42"
    and a: "2 \<le> max_points \<and> max_points < int (length points)"
  then have m: "2 \<le> max_points" "max_points < int (length points)" by simp_all
  define g where "g = (\<lambda>i. points ! nat (py_int (int_times_float i
                            (fl (of_int (int (length points) - 1) / of_int (max_points - 1))))))"
  define out where "out = map g [0..max_points - 2] @ [last points]"
  note d = downsample_points_indices [OF m bound]
  have ne: "points \<noteq> []" using m by auto
  have up: "[0..max_points - 2] = 0 # [0 + 1..max_points - 2]"
    using m(1) by (intro upto_rec1) simp
  have "g 0 = points ! 0" by (simp add: g_def int_times_float_zero)
  then have hd: "hd out = hd points" using ne by (simp add: out_def up hd_conv_nth)
  have len: "int (length out) = max_points" using m(1) by (simp add: out_def)
  have last: "last out = last points" by (simp add: out_def)
  have "downsample_points points max_points = Inr out" unfolding out_def g_def by (rule d(1))
  with d(2) hd len last
  show "\<exists>out. downsample_points points max_points = Inr out
               \<and> out = map (\<lambda>i. points ! nat (py_int (int_times_float i
                            (fl (of_int (int (length points) - 1) / of_int (max_points - 1))))))
                          [0..max_points - 2] @ [last points]
               \<and> (\<forall>i \<in> set [0..max_points - 2].
                     0 \<le> py_int (int_times_float i
                            (fl (of_int (int (length points) - 1) / of_int (max_points - 1))))
                     \<and> py_int (int_times_float i
                            (fl (of_int (int (length points) - 1) / of_int (max_points - 1))))
                         < int (length points))
               \<and> int (length out) = max_points
               \<and> hd out = hd points
               \<and> last out = last points"
    unfolding out_def g_def by blast
next
  assume bound: "length points \<le> 2 ^ 42" and "500 < length points"
  from this(2) show "downsample_points points 500 =
              Inr (map (\<lambda>i. points ! nat (i * (int (length points) - 1) div 499)) [0..498]
                   @ [last points])"
    using bound by (rule downsample_points_500)
next
  assume bound: "length points \<le> 2 ^ 42"
  show "encode_polyline polyline_encode points =
            Inr (polyline_encode
              (if length points \<le> 500 then points
               else map (\<lambda>i. points ! nat (i * (int (length points) - 1) div 499)) [0..498]
                    @ [last points]))"
  proof (cases "length points \<le> 500")
    case True
    then have "downsample_points points 500 = Inr points"
      by (intro downsample_points_small) simp
    with True show ?thesis by (simp add: encode_polyline_def err_bind_def)
  next
    case False
    then have "500 < length points" by simp
    from downsample_points_500 [OF this bound] False show ?thesis
      by (simp add: encode_polyline_def err_bind_def)
  qed
qed

theorem downsample_points_selection_witness:
  "length [0 ..< 5] \<le> 2 ^ 42 \<and> (2 :: int) \<le> 3 \<and> 3 < int (length [0 ..< 5])
   \<and> (\<exists>out. downsample_points [0 ..< 5] 3 = Inr out
          \<and> int (length out) = 3 \<and> hd out = 0 \<and> last out = 4)
   \<and> int (length [0 ..< 3]) \<le> 3 \<and> downsample_points [0 ..< 3] 3 = Inr [0 ..< 3]
   \<and> 500 < length [0 ..< 501]
   \<and> downsample_points [0 ..< 501] 500 =
        Inr (map (\<lambda>i. [0 ..< 501] ! nat (i * (int (length [0 ..< 501]) - 1) div 499)) [0..498]
             @ [last [0 ..< 501]])"
proof -
  have a: "length [0 ..< 5] \<le> 2 ^ 42" "length [0 ..< 3] \<le> 2 ^ 42" "length [0 ..< 501] \<le> 2 ^ 42"
    by simp_all
  have b: "(2 :: int) \<le> 3 \<and> 3 < int (length [0 ..< 5])" by simp
  have c: "int (length [0 ..< 3]) \<le> 3" by simp
  have d: "500 < length [0 ..< 501]" by simp
  have h: "hd [0 ..< 5] = 0" "last [0 ..< 5] = 4" by (simp_all add: hd_upt last_upt)
  from downsample_points_selection [of "[0 ..< 5]" 3] a(1) b
  obtain out where "downsample_points [0 ..< 5] 3 = Inr out" "int (length out) = 3"
    "hd out = hd [0 ..< 5]" "last out = last [0 ..< 5]"
    by blast
  then have 1: "\<exists>out. downsample_points [0 ..< 5] 3 = Inr out
          \<and> int (length out) = 3 \<and> hd out = 0 \<and> last out = 4"
    by (simp only: h) blast
  from downsample_points_selection [of "[0 ..< 3]" 3] c
  have 2: "downsample_points [0 ..< 3] 3 = Inr [0 ..< 3]" by blast
  from downsample_points_selection [of "[0 ..< 501]" 500] a(3) d
  have 3: "downsample_points [0 ..< 501] 500 =
        Inr (map (\<lambda>i. [0 ..< 501] ! nat (i * (int (length [0 ..< 501]) - 1) div 499)) [0..498]
             @ [last [0 ..< 501]])" by blast
  from a(1) b 1 c 2 d 3 show ?thesis by blast
qed

end
